theory Spec2Isabelle
  imports Complex_Main
begin

section \<open>A mass-spring-damper simulation\<close>

text \<open>
  The program keeps point masses and damped springs in two fixed-capacity arrays of a
  \<open>System\<close> structure and advances them with a semi-implicit Euler step. The embedding
  below follows the C functions one by one. Scalars (\<open>float\<close> and \<open>double\<close> in the
  source) are real numbers here: arithmetic is exact, rounding and the non-finite values
  of IEEE arithmetic are outside the model. Array indices and counters (\<open>size_t\<close>) are
  natural numbers; the counters of the program are bounded by its capacity constants.
\<close>

subsection \<open>Two-dimensional vectors\<close>

text \<open>
  \<open>Vector2\<close> and its operations belong to the vector library the program is linked with
  (\<open>raymath.h\<close>), which is not part of the sources. They are written here with their
  documented meaning; \<open>Vector2Normalize\<close> is the library's version that returns the zero
  vector for a vector of length zero.
\<close>

record Vector2 =
  x :: real
  y :: real

definition Vector2Zero :: Vector2 where
  "Vector2Zero = \<lparr>x = 0, y = 0\<rparr>"

definition Vector2Add :: "Vector2 \<Rightarrow> Vector2 \<Rightarrow> Vector2" where
  "Vector2Add v1 v2 = \<lparr>x = x v1 + x v2, y = y v1 + y v2\<rparr>"

definition Vector2Subtract :: "Vector2 \<Rightarrow> Vector2 \<Rightarrow> Vector2" where
  "Vector2Subtract v1 v2 = \<lparr>x = x v1 - x v2, y = y v1 - y v2\<rparr>"

definition Vector2Scale :: "Vector2 \<Rightarrow> real \<Rightarrow> Vector2" where
  "Vector2Scale v scale = \<lparr>x = x v * scale, y = y v * scale\<rparr>"

definition Vector2Length :: "Vector2 \<Rightarrow> real" where
  "Vector2Length v = sqrt (x v * x v + y v * y v)"

definition Vector2DotProduct :: "Vector2 \<Rightarrow> Vector2 \<Rightarrow> real" where
  "Vector2DotProduct v1 v2 = x v1 * x v2 + y v1 * y v2"

definition Vector2Normalize :: "Vector2 \<Rightarrow> Vector2" where
  "Vector2Normalize v =
     (let len = sqrt (x v * x v + y v * y v)
      in if len > 0
         then (let ilength = 1 / len in \<lparr>x = x v * ilength, y = y v * ilength\<rparr>)
         else \<lparr>x = 0, y = 0\<rparr>)"

subsection \<open>Constants\<close>

definition FORCES_CAPACITY :: nat where
  "FORCES_CAPACITY = 64"

definition SYSTEM_CAPACITY :: nat where
  "SYSTEM_CAPACITY = 8096"

definition GRAVITATIONAL_ACCELERATION :: Vector2 where
  "GRAVITATIONAL_ACCELERATION = \<lparr>x = 0, y = 98\<rparr>"

subsection \<open>Reports\<close>

text \<open>
  The functions return nothing; a rejected call prints one line and returns early. Each
  model function returns the lines it printed, in order, next to the new state:
  \<^item> \<open>ForcesFull\<close>: "ERROR: Cannot append any more forces to mass";
  \<^item> \<open>MassesFull\<close>: "ERROR: Cannot add more masses to the system";
  \<^item> \<open>SpringsFull\<close>: "ERROR: Cannot add more springs to the system";
  \<^item> \<open>FirstIndexOutOfRange\<close>: "ERROR: Index to first mass out of range";
  \<^item> \<open>SecondIndexOutOfRange\<close>: "ERROR: Index to second mass out of range".
\<close>

datatype report =
  ForcesFull | MassesFull | SpringsFull | FirstIndexOutOfRange | SecondIndexOutOfRange

subsection \<open>Counting loops\<close>

text \<open>
  \<open>for (size_t i = i0; i < n; ++i) body\<close>. In every loop of the program the bound is a
  parameter or a counter that the body leaves alone, so it is passed once.
\<close>

function for_upto :: "nat \<Rightarrow> nat \<Rightarrow> (nat \<Rightarrow> 'a \<Rightarrow> 'a) \<Rightarrow> 'a \<Rightarrow> 'a" where
  "for_upto i n body s = (if i < n then for_upto (Suc i) n body (body i s) else s)"
  by pat_completeness auto
termination
  by (relation "measure (\<lambda>(i, n, body, s). n - i)") auto

declare for_upto.simps [simp del]

subsection \<open>Mass\<close>

text \<open>
  The array \<open>forces\<close> is a function of the index; only indices below
  \<open>FORCES_CAPACITY\<close> are ever written. The field \<open>mass\<close> of the structure is
  \<open>mass_value\<close> here, since a record field \<open>mass\<close> would take the name
  \<open>mass_update\<close> of the function below for its own update.
\<close>

record Mass =
  position :: Vector2
  velocity :: Vector2
  acceleration :: Vector2
  forces :: "nat \<Rightarrow> Vector2"
  force_count :: nat
  mass_value :: real
  fixed :: bool

definition mass_force_append :: "Mass \<Rightarrow> Vector2 \<Rightarrow> Mass \<times> report list" where
  "mass_force_append m force =
     (if force_count m \<ge> FORCES_CAPACITY then (m, [ForcesFull])
      else (m\<lparr>forces := (forces m)(force_count m := force),
               force_count := force_count m + 1\<rparr>, []))"

definition mass_reset_forces :: "Mass \<Rightarrow> Mass" where
  "mass_reset_forces m = m\<lparr>force_count := 0\<rparr>"

definition mass_update :: "Mass \<Rightarrow> real \<Rightarrow> Mass" where
  "mass_update m dt =
     (if fixed m then m
      else
        let m1 = m\<lparr>acceleration := GRAVITATIONAL_ACCELERATION\<rparr>;
            m2 = for_upto 0 (force_count m1)
                   (\<lambda>i a. let acceleration_from_force = Vector2Scale (forces a i) (1 / mass_value a)
                          in a\<lparr>acceleration :=
                                 Vector2Add (acceleration a) acceleration_from_force\<rparr>)
                   m1;
            m3 = m2\<lparr>velocity := Vector2Add (velocity m2) (Vector2Scale (acceleration m2) dt)\<rparr>
        in m3\<lparr>position := Vector2Add (position m3) (Vector2Scale (velocity m3) dt)\<rparr>)"

subsection \<open>Spring\<close>

text \<open>
  The two endpoints are pointers into the \<open>masses\<close> array of the owning system:
  \<open>Some i\<close> is \<open>&system->masses[i]\<close>, \<open>None\<close> is the null pointer of a spring
  literal that has not been added to a system. \<open>spring_update\<close> reads and writes the
  masses through these pointers, so it works on the array; dereferencing a null endpoint
  has no defined result, which is \<open>None\<close>.
\<close>

record Spring =
  first :: "nat option"
  second :: "nat option"
  length_s :: real
  strength :: real
  dampening :: real

type_synonym mass_store = "nat \<Rightarrow> Mass"

definition store_force_append ::
  "nat \<Rightarrow> Vector2 \<Rightarrow> mass_store \<times> report list \<Rightarrow> mass_store \<times> report list" where
  "store_force_append k force st =
     (case st of (ms, out) \<Rightarrow>
        (case mass_force_append (ms k) force of (m', r) \<Rightarrow> (ms(k := m'), out @ r)))"

definition spring_update :: "Spring \<Rightarrow> mass_store \<Rightarrow> (mass_store \<times> report list) option" where
  "spring_update spring ms =
     (case (first spring, second spring) of
        (Some i, Some j) \<Rightarrow>
          (let span = Vector2Subtract (position (ms j)) (position (ms i));
               force_direction = Vector2Normalize span;
               displacement = length_s spring - Vector2Length span;
               st1 = store_force_append i
                       (Vector2Scale force_direction (strength spring * - displacement))
                       (ms, []);
               st2 = store_force_append j
                       (Vector2Scale force_direction (strength spring * displacement)) st1;
               displacement_rate_first =
                 Vector2DotProduct (velocity (fst st2 i)) force_direction;
               displacement_rate_second =
                 - Vector2DotProduct (velocity (fst st2 j)) force_direction;
               displacement_rate = displacement_rate_first + displacement_rate_second;
               st3 = store_force_append i
                       (Vector2Scale force_direction (dampening spring * - displacement_rate))
                       st2;
               st4 = store_force_append j
                       (Vector2Scale force_direction (dampening spring * displacement_rate))
                       st3
           in Some st4)
      | _ \<Rightarrow> None)"

subsection \<open>System\<close>

record System =
  masses :: mass_store
  springs :: "nat \<Rightarrow> Spring"
  mass_count :: nat
  spring_count :: nat

definition system_add_mass :: "System \<Rightarrow> Mass \<Rightarrow> System \<times> report list" where
  "system_add_mass system m =
     (if mass_count system \<ge> SYSTEM_CAPACITY then (system, [MassesFull])
      else (system\<lparr>masses := (masses system)(mass_count system := m),
                    mass_count := mass_count system + 1\<rparr>, []))"

definition system_add_spring ::
  "System \<Rightarrow> Spring \<Rightarrow> nat \<Rightarrow> nat \<Rightarrow> System \<times> report list" where
  "system_add_spring system spring m1 m2 =
     (if spring_count system \<ge> SYSTEM_CAPACITY then (system, [SpringsFull])
      else if mass_count system \<le> m1 then (system, [FirstIndexOutOfRange])
      else if mass_count system \<le> m2 then (system, [SecondIndexOutOfRange])
      else
        (let spring1 = spring\<lparr>first := Some m1\<rparr>;
             spring2 = spring1\<lparr>second := Some m2\<rparr>
         in (system\<lparr>springs := (springs system)(spring_count system := spring2),
                     spring_count := spring_count system + 1\<rparr>, [])))"

definition system_spring_update :: "System \<Rightarrow> (System \<times> report list) option" where
  "system_spring_update system =
     for_upto 0 (spring_count system)
       (\<lambda>i st. case st of
                 None \<Rightarrow> None
               | Some (s, out) \<Rightarrow>
                   (case spring_update (springs s i) (masses s) of
                      None \<Rightarrow> None
                    | Some (ms', r) \<Rightarrow> Some (s\<lparr>masses := ms'\<rparr>, out @ r)))
       (Some (system, []))"

definition system_mass_update :: "System \<Rightarrow> real \<Rightarrow> System" where
  "system_mass_update system dt =
     for_upto 0 (mass_count system)
       (\<lambda>i s. s\<lparr>masses := (masses s)(i := mass_update (masses s i) dt)\<rparr>)
       system"

definition system_mass_reset_forces :: "System \<Rightarrow> System" where
  "system_mass_reset_forces system =
     for_upto 0 (mass_count system)
       (\<lambda>i s. s\<lparr>masses := (masses s)(i := mass_reset_forces (masses s i))\<rparr>)
       system"

definition system_mass_force_append :: "System \<Rightarrow> Vector2 \<Rightarrow> System \<times> report list" where
  "system_mass_force_append system force =
     for_upto 0 (mass_count system)
       (\<lambda>i st. case st of (s, out) \<Rightarrow>
                 (case mass_force_append (masses s i) force of
                    (m', r) \<Rightarrow> (s\<lparr>masses := (masses s)(i := m')\<rparr>, out @ r)))
       (system, [])"

subsection \<open>The grid\<close>

text \<open>
  \<open>Mass m = {0}\<close>: every field zero. The body of the second pair of loops is
  \<open>grid_springs_body\<close>; it runs only with \<open>r < rows\<close> and \<open>c < cols\<close>, so
  \<open>rows - 1\<close> and \<open>cols - 1\<close> are never taken of zero, and for a grid that fits the
  mass collection the index arithmetic stays far below the range of \<open>size_t\<close>.
\<close>

definition zero_mass :: Mass where
  "zero_mass = \<lparr>position = Vector2Zero, velocity = Vector2Zero, acceleration = Vector2Zero,
                forces = (\<lambda>_. Vector2Zero), force_count = 0, mass_value = 0, fixed = False\<rparr>"

definition grid_mass :: "nat \<Rightarrow> nat \<Rightarrow> Vector2 \<Rightarrow> real \<Rightarrow> real \<Rightarrow> Mass" where
  "grid_mass r c origin cell_size mass_arg =
     zero_mass\<lparr>position :=
                 Vector2Add origin (Vector2Scale \<lparr>x = real c, y = real r\<rparr> cell_size),
               mass_value := mass_arg,
               fixed := (r = 0)\<rparr>"

definition grid_spring :: "real \<Rightarrow> real \<Rightarrow> real \<Rightarrow> Spring" where
  "grid_spring cell_size spring_strength spring_dampening =
     \<lparr>first = None, second = None, length_s = cell_size,
      strength = spring_strength, dampening = spring_dampening\<rparr>"

definition add_mass_step :: "Mass \<Rightarrow> System \<times> report list \<Rightarrow> System \<times> report list" where
  "add_mass_step m st =
     (case st of (s, out) \<Rightarrow> (case system_add_mass s m of (s', r) \<Rightarrow> (s', out @ r)))"

definition add_spring_step ::
  "Spring \<Rightarrow> nat \<Rightarrow> nat \<Rightarrow> System \<times> report list \<Rightarrow> System \<times> report list" where
  "add_spring_step spring m1 m2 st =
     (case st of (s, out) \<Rightarrow>
        (case system_add_spring s spring m1 m2 of (s', r) \<Rightarrow> (s', out @ r)))"

definition grid_springs_body ::
  "nat \<Rightarrow> nat \<Rightarrow> real \<Rightarrow> real \<Rightarrow> real \<Rightarrow> nat \<Rightarrow> nat \<Rightarrow>
   System \<times> report list \<Rightarrow> System \<times> report list" where
  "grid_springs_body rows cols cell_size spring_strength spring_dampening r c st =
     (let m0 = r * cols + c;
          m1 = r * cols + c + 1;
          m2 = (r + 1) * cols + c;
          st1 = (if c \<noteq> cols - 1 \<and> m1 < rows * cols
                 then add_spring_step
                        (grid_spring cell_size spring_strength spring_dampening) m0 m1 st
                 else st)
      in if r \<noteq> rows - 1 \<and> m2 < rows * cols
         then add_spring_step
                (grid_spring cell_size spring_strength spring_dampening) m0 m2 st1
         else st1)"

definition system_init_grid ::
  "System \<Rightarrow> nat \<Rightarrow> nat \<Rightarrow> Vector2 \<Rightarrow> real \<Rightarrow> real \<Rightarrow> real \<Rightarrow> real \<Rightarrow> System \<times> report list" where
  "system_init_grid system rows cols origin cell_size mass_arg
                    spring_strength spring_dampening =
     (let s0 = system\<lparr>mass_count := 0, spring_count := 0\<rparr>;
          st1 = for_upto 0 rows
                  (\<lambda>r. for_upto 0 cols
                         (\<lambda>c. add_mass_step (grid_mass r c origin cell_size mass_arg)))
                  (s0, [])
      in for_upto 0 rows
           (\<lambda>r. for_upto 0 cols
                  (grid_springs_body rows cols cell_size spring_strength spring_dampening r))
           st1)"

subsection \<open>The operations of a system\<close>

text \<open>
  The entry points a driver calls on a system, as values, and the function that runs
  one of them. \<open>StepSprings\<close> is \<open>system_spring_update\<close>, \<open>StepMasses\<close> is
  \<open>system_mass_update\<close>, \<open>ResetForces\<close> is \<open>system_mass_reset_forces\<close>,
  \<open>ApplyUniformForce\<close> is \<open>system_mass_force_append\<close> and \<open>BuildGrid\<close> is
  \<open>system_init_grid\<close>.
\<close>

datatype operation =
    AddMass Mass
  | AddSpring Spring nat nat
  | BuildGrid nat nat Vector2 real real real real
  | StepSprings
  | StepMasses real
  | ResetForces
  | ApplyUniformForce Vector2

fun apply_operation :: "operation \<Rightarrow> System \<Rightarrow> (System \<times> report list) option" where
  "apply_operation (AddMass m) s = Some (system_add_mass s m)"
| "apply_operation (AddSpring spring m1 m2) s = Some (system_add_spring s spring m1 m2)"
| "apply_operation (BuildGrid rows cols origin cell_size mass_arg k d) s =
     Some (system_init_grid s rows cols origin cell_size mass_arg k d)"
| "apply_operation StepSprings s = system_spring_update s"
| "apply_operation (StepMasses dt) s = Some (system_mass_update s dt, [])"
| "apply_operation ResetForces s = Some (system_mass_reset_forces s, [])"
| "apply_operation (ApplyUniformForce force) s = Some (system_mass_force_append s force)"

text \<open>\<open>BuildGrid\<close> replaces the whole mass collection; no other operation does.\<close>

fun rebuilds :: "operation \<Rightarrow> bool" where
  "rebuilds (BuildGrid rows cols origin cell_size mass_arg k d) = True"
| "rebuilds _ = False"

subsection \<open>Observing a step\<close>

definition Vector2Negate :: "Vector2 \<Rightarrow> Vector2" where
  "Vector2Negate v = \<lparr>x = - x v, y = - y v\<rparr>"

fun sum_forces :: "Vector2 list \<Rightarrow> Vector2" where
  "sum_forces [] = Vector2Zero"
| "sum_forces (v # vs) = Vector2Add v (sum_forces vs)"

text \<open>The forces a step has appended to a mass: the entries of \<open>forces\<close> between the
  old and the new \<open>force_count\<close>.\<close>

definition applied_forces :: "Mass \<Rightarrow> Mass \<Rightarrow> Vector2 list" where
  "applied_forces before after = map (forces after) [force_count before ..< force_count after]"

text \<open>One call of \<open>spring_update\<close>, seen from outside: the forces appended to the first
  endpoint, those appended to the second, and the lines printed.\<close>

definition spring_step_applied ::
  "Spring \<Rightarrow> mass_store \<Rightarrow> (Vector2 list \<times> Vector2 list \<times> report list) option" where
  "spring_step_applied spring ms =
     (case (first spring, second spring, spring_update spring ms) of
        (Some i, Some j, Some (ms', r)) \<Rightarrow>
          Some (applied_forces (ms i) (ms' i), applied_forces (ms j) (ms' j), r)
      | _ \<Rightarrow> None)"

text \<open>What is kept of a mass when it does not move.\<close>

definition kinematics_kept :: "Mass \<Rightarrow> Mass \<Rightarrow> bool" where
  "kinematics_kept m m' \<longleftrightarrow>
     position m' = position m \<and> velocity m' = velocity m \<and> fixed m' = fixed m"

subsection \<open>Two ways of integrating a list of forces\<close>

text \<open>
  \<open>integrate_once\<close> appends every force of the list with \<open>mass_force_append\<close> and
  calls \<open>mass_update\<close> once. \<open>integrate_each\<close> makes one pass per force: append the
  force, \<open>mass_update\<close>, \<open>mass_reset_forces\<close>, as the driver's tick does.
\<close>

definition accumulate :: "Mass \<Rightarrow> Vector2 list \<Rightarrow> Mass" where
  "accumulate m fs = fold (\<lambda>f a. fst (mass_force_append a f)) fs m"

definition integrate_once :: "Mass \<Rightarrow> real \<Rightarrow> Vector2 list \<Rightarrow> Mass" where
  "integrate_once m dt fs = mass_update (accumulate m fs) dt"

definition integrate_pass :: "real \<Rightarrow> Vector2 \<Rightarrow> Mass \<Rightarrow> Mass" where
  "integrate_pass dt f m = mass_reset_forces (mass_update (fst (mass_force_append m f)) dt)"

definition integrate_each :: "Mass \<Rightarrow> real \<Rightarrow> Vector2 list \<Rightarrow> Mass" where
  "integrate_each m dt fs = fold (integrate_pass dt) fs m"

subsection \<open>Invariants of the topology\<close>

text \<open>A spring is bound below \<open>n\<close> when both its endpoints are set and point at masses
  with an index below \<open>n\<close>.\<close>

definition bound_below :: "nat \<Rightarrow> Spring \<Rightarrow> bool" where
  "bound_below n spring =
     (case first spring of
        None \<Rightarrow> False
      | Some i \<Rightarrow> (case second spring of None \<Rightarrow> False | Some j \<Rightarrow> i < n \<and> j < n))"

definition endpoints_in_system :: "System \<Rightarrow> bool" where
  "endpoints_in_system s \<longleftrightarrow>
     (\<forall>k \<in> {..<spring_count s}. bound_below (mass_count s) (springs s k))"

definition endpoints_distinct :: "System \<Rightarrow> bool" where
  "endpoints_distinct s \<longleftrightarrow>
     (\<forall>k \<in> {..<spring_count s}. first (springs s k) \<noteq> second (springs s k))"

fun adds_self_loop :: "operation \<Rightarrow> bool" where
  "adds_self_loop (AddSpring spring m1 m2) = (m1 = m2)"
| "adds_self_loop _ = False"

text \<open>What the steps on the masses leave alone.\<close>

definition topology_kept :: "System \<Rightarrow> System \<Rightarrow> bool" where
  "topology_kept s t \<longleftrightarrow>
     springs t = springs s \<and> spring_count t = spring_count s \<and> mass_count t = mass_count s"

definition grid_ok :: "System \<times> report list \<Rightarrow> bool" where
  "grid_ok st \<longleftrightarrow> endpoints_in_system (fst st) \<and> endpoints_distinct (fst st)"

text \<open>The state after the first \<open>n\<close> masses of the grid have been added, in row-major
  order: the mass at index \<open>k\<close> is the one of row \<open>k div cols\<close> and column
  \<open>k mod cols\<close>.\<close>

definition grid_filled ::
  "nat \<Rightarrow> Vector2 \<Rightarrow> real \<Rightarrow> real \<Rightarrow> nat \<Rightarrow> System \<times> report list \<Rightarrow> bool" where
  "grid_filled cols origin cell_size mass_arg n st \<longleftrightarrow>
     mass_count (fst st) = n \<and> spring_count (fst st) = 0 \<and> snd st = []
     \<and> (\<forall>k \<in> {..<n}.
           masses (fst st) k = grid_mass (k div cols) (k mod cols) origin cell_size mass_arg)"

definition masses_kept :: "System \<times> report list \<Rightarrow> System \<times> report list \<Rightarrow> bool" where
  "masses_kept st st' \<longleftrightarrow>
     masses (fst st') = masses (fst st) \<and> mass_count (fst st') = mass_count (fst st)"

subsection \<open>Concrete inputs\<close>

definition example_spring :: Spring where
  "example_spring = \<lparr>first = Some 0, second = Some 1, length_s = 1, strength = 1, dampening = 1\<rparr>"

definition moving_mass :: "nat \<Rightarrow> Mass" where
  "moving_mass n = zero_mass\<lparr>velocity := \<lparr>x = 1, y = 0\<rparr>, force_count := n, mass_value := 1\<rparr>"

definition resting_mass :: "nat \<Rightarrow> Mass" where
  "resting_mass n = zero_mass\<lparr>position := \<lparr>x = 1, y = 0\<rparr>, force_count := n, mass_value := 1\<rparr>"

text \<open>Two masses one unit apart, the first moving towards the second, with \<open>n1\<close> and
  \<open>n2\<close> forces already accumulated.\<close>

definition example_store :: "nat \<Rightarrow> nat \<Rightarrow> mass_store" where
  "example_store n1 n2 = (\<lambda>_. zero_mass)(0 := moving_mass n1, 1 := resting_mass n2)"

definition empty_system :: System where
  "empty_system = \<lparr>masses = (\<lambda>_. zero_mass),
                    springs = (\<lambda>_. \<lparr>first = None, second = None, length_s = 0,
                                     strength = 0, dampening = 0\<rparr>),
                    mass_count = 0, spring_count = 0\<rparr>"

definition example_system :: "nat \<Rightarrow> nat \<Rightarrow> System" where
  "example_system n k =
     empty_system\<lparr>masses := example_store 0 0, mass_count := n, spring_count := k\<rparr>"

definition loaded_mass :: "bool \<Rightarrow> Mass" where
  "loaded_mass pinned =
     zero_mass\<lparr>position := \<lparr>x = 2, y = 3\<rparr>, velocity := \<lparr>x = 1, y = 0\<rparr>,
               forces := (\<lambda>_. Vector2Zero)(0 := \<lparr>x = 4, y = 2\<rparr>, 1 := \<lparr>x = 2, y = 2\<rparr>),
               force_count := 2, mass_value := 2, fixed := pinned\<rparr>"

definition pinned_system :: System where
  "pinned_system = empty_system\<lparr>masses := (\<lambda>_. zero_mass)(0 := loaded_mass True),
                                mass_count := 1\<rparr>"

definition unit_mass :: Mass where
  "unit_mass = zero_mass\<lparr>mass_value := 1\<rparr>"

text \<open>The two example masses joined by the example spring.\<close>

definition sprung_system :: System where
  "sprung_system =
     empty_system\<lparr>masses := example_store 0 0,
                  springs := (springs empty_system)(0 := example_spring),
                  mass_count := 2, spring_count := 1\<rparr>"

subsection \<open>Normalising without dividing by zero\<close>

text \<open>
  The only division on the path of \<open>spring_update\<close> is the \<open>1 / length\<close> of
  \<open>Vector2Normalize\<close>. In the real numbers a division by zero has a value; in the
  program it has a non-finite one. \<open>checked_divide\<close> is the division that has no result
  for a zero divisor, and \<open>Vector2Normalize_checked\<close> is the library function written
  with it: \<open>None\<close> is a direction with non-finite components.
\<close>

definition checked_divide :: "real \<Rightarrow> real \<Rightarrow> real option" where
  "checked_divide a b = (if b = 0 then None else Some (a / b))"

definition Vector2Normalize_checked :: "Vector2 \<Rightarrow> Vector2 option" where
  "Vector2Normalize_checked v =
     (let len = sqrt (x v * x v + y v * y v)
      in if len > 0
         then (case checked_divide 1 len of
                 None \<Rightarrow> None
               | Some ilength \<Rightarrow> Some \<lparr>x = x v * ilength, y = y v * ilength\<rparr>)
         else Some \<lparr>x = 0, y = 0\<rparr>)"



section \<open>Properties\<close>

lemmas vector_defs = Vector2Zero_def Vector2Add_def Vector2Subtract_def Vector2Scale_def
  Vector2Length_def Vector2DotProduct_def Vector2Normalize_def Vector2Negate_def

lemmas example_defs = example_spring_def example_store_def moving_mass_def resting_mass_def
  zero_mass_def empty_system_def example_system_def loaded_mass_def pinned_system_def
  unit_mass_def sprung_system_def

lemmas constant_defs = FORCES_CAPACITY_def SYSTEM_CAPACITY_def GRAVITATIONAL_ACCELERATION_def

subsection \<open>Counting loops\<close>

lemma for_upto_fold: "for_upto i n body s = fold body [i..<n] s"
proof (induction i n body s rule: for_upto.induct)
  case (1 i n body s)
  show ?case
  proof (cases "i < n")
    case True
    then show ?thesis using 1 by (subst for_upto.simps) (simp add: upt_conv_Cons)
  next
    case False
    then show ?thesis by (subst for_upto.simps) simp
  qed
qed

lemma for_upto_empty [simp]: "n \<le> i \<Longrightarrow> for_upto i n body s = s"
  by (simp add: for_upto_fold)

lemma for_upto_Suc: "i \<le> n \<Longrightarrow> for_upto i (Suc n) body s = body n (for_upto i n body s)"
  by (simp add: for_upto_fold)

lemma for_upto_first: "i < n \<Longrightarrow> for_upto i n body s = for_upto (Suc i) n body (body i s)"
  by (subst for_upto.simps) simp

text \<open>A property that holds before the loop and that every iteration keeps holds after
  the loop.\<close>

lemma for_upto_invariant:
  assumes "P s" and "\<And>k t. i \<le> k \<Longrightarrow> k < n \<Longrightarrow> P t \<Longrightarrow> P (body k t)"
  shows "P (for_upto i n body s)"
  using assms
proof (induction i n body s rule: for_upto.induct)
  case (1 i n body s)
  show ?case
  proof (cases "i < n")
    case True
    have "P (for_upto (Suc i) n body (body i s))"
      using True 1 by (metis Suc_leD order_refl)
    then show ?thesis using True by (simp add: for_upto_first)
  next
    case False
    then show ?thesis using 1 by simp
  qed
qed

text \<open>The same with a property that depends on the loop counter.\<close>

lemma for_upto_indexed:
  assumes "P i s" and "\<And>k t. i \<le> k \<Longrightarrow> k < n \<Longrightarrow> P k t \<Longrightarrow> P (Suc k) (body k t)"
    and "i \<le> n"
  shows "P n (for_upto i n body s)"
  using assms
proof (induction i n body s rule: for_upto.induct)
  case (1 i n body s)
  show ?case
  proof (cases "i < n")
    case True
    have "P (Suc i) (body i s)" using 1(2,3) True by simp
    moreover have "\<And>k t. Suc i \<le> k \<Longrightarrow> k < n \<Longrightarrow> P k t \<Longrightarrow> P (Suc k) (body k t)"
      using 1(3) by simp
    ultimately have "P n (for_upto (Suc i) n body (body i s))"
      using True by (intro 1(1)) simp_all
    then show ?thesis using True by (simp add: for_upto_first)
  next
    case False
    then have "i = n" using 1(4) by simp
    then show ?thesis using 1(2) by simp
  qed
qed

subsection \<open>Integration of one mass\<close>

lemma accumulate_loop:
  "for_upto 0 n
       (\<lambda>i a. a\<lparr>acceleration :=
                   Vector2Add (acceleration a) (Vector2Scale (forces a i) (1 / mass_value a))\<rparr>)
       m1
   = m1\<lparr>acceleration :=
          \<lparr>x = x (acceleration m1) + (\<Sum>i<n. x (forces m1 i) / mass_value m1),
           y = y (acceleration m1) + (\<Sum>i<n. y (forces m1 i) / mass_value m1)\<rparr>\<rparr>"
proof (induction n)
  case 0
  then show ?case by simp
next
  case (Suc n)
  then show ?case
    by (simp add: for_upto_Suc Vector2Add_def Vector2Scale_def add.assoc)
qed

lemma mass_update_free:
  assumes "\<not> fixed m"
  shows "acceleration (mass_update m dt) =
           \<lparr>x = x GRAVITATIONAL_ACCELERATION + (\<Sum>i<force_count m. x (forces m i) / mass_value m),
            y = y GRAVITATIONAL_ACCELERATION + (\<Sum>i<force_count m. y (forces m i) / mass_value m)\<rparr>"
    and "velocity (mass_update m dt) =
           Vector2Add (velocity m) (Vector2Scale (acceleration (mass_update m dt)) dt)"
    and "position (mass_update m dt) =
           Vector2Add (position m) (Vector2Scale (velocity (mass_update m dt)) dt)"
  using assms by (simp_all add: mass_update_def Let_def accumulate_loop)

lemma mass_update_fixed: "fixed m \<Longrightarrow> mass_update m dt = m"
  by (simp add: mass_update_def)

text \<open>
  Claim C1. For a mass that is not fixed, \<open>mass_update\<close> sets the acceleration to the
  gravitational acceleration plus the sum of force / mass over the accumulated forces,
  then adds acceleration * dt to the velocity, then adds the new velocity * dt to the
  position. The mass is taken non-zero: the quotient force / mass of the real numbers
  says nothing about a division by zero.
\<close>

theorem mass_update_semi_implicit_euler:
  assumes "\<not> fixed m" and "mass_value m \<noteq> 0"
  shows "acceleration (mass_update m dt) =
           \<lparr>x = x GRAVITATIONAL_ACCELERATION + (\<Sum>i<force_count m. x (forces m i) / mass_value m),
            y = y GRAVITATIONAL_ACCELERATION + (\<Sum>i<force_count m. y (forces m i) / mass_value m)\<rparr>
         \<and> velocity (mass_update m dt) =
             Vector2Add (velocity m) (Vector2Scale (acceleration (mass_update m dt)) dt)
         \<and> position (mass_update m dt) =
             Vector2Add (position m) (Vector2Scale (velocity (mass_update m dt)) dt)"
  using assms(1) by (simp add: mass_update_def Let_def accumulate_loop)

theorem mass_update_semi_implicit_euler_witness:
  "\<not> fixed (loaded_mass False) \<and> mass_value (loaded_mass False) \<noteq> 0
   \<and> acceleration (mass_update (loaded_mass False) (1/2)) = \<lparr>x = 3, y = 100\<rparr>
   \<and> velocity (mass_update (loaded_mass False) (1/2)) = \<lparr>x = 5/2, y = 50\<rparr>
   \<and> position (mass_update (loaded_mass False) (1/2)) = \<lparr>x = 13/4, y = 28\<rparr>"
  using mass_update_semi_implicit_euler [of "loaded_mass False" "1/2"]
  by (simp add: loaded_mass_def zero_mass_def GRAVITATIONAL_ACCELERATION_def vector_defs
      lessThan_Suc numeral_2_eq_2)

subsection \<open>One spring step\<close>

lemma store_force_append_free:
  "force_count (ms k) < FORCES_CAPACITY \<Longrightarrow>
   store_force_append k f (ms, out) =
     (ms(k := (ms k)\<lparr>forces := (forces (ms k))(force_count (ms k) := f),
                     force_count := Suc (force_count (ms k))\<rparr>), out)"
  by (simp add: store_force_append_def mass_force_append_def)

lemma store_force_append_full:
  "FORCES_CAPACITY \<le> force_count (ms k) \<Longrightarrow>
   store_force_append k f (ms, out) = (ms, out @ [ForcesFull])"
  by (simp add: store_force_append_def mass_force_append_def)

lemma applied_two:
  "force_count after = Suc (Suc (force_count before)) \<Longrightarrow>
   applied_forces before after =
     [forces after (force_count before), forces after (Suc (force_count before))]"
  by (simp add: applied_forces_def upt_conv_Cons)

lemma applied_none: "force_count after = force_count before \<Longrightarrow> applied_forces before after = []"
  by (simp add: applied_forces_def)

text \<open>
  Claim C2, as amended. When each endpoint's force list has room for two more forces,
  one call of \<open>spring_update\<close> on a spring with two different endpoints appends the
  spring force and the damping force to the first endpoint and their exact negations to
  the second, prints nothing, and the sum of the four forces is the zero vector.
\<close>

theorem spring_update_third_law:
  assumes "first spring = Some i" and "second spring = Some j" and "i \<noteq> j"
    and "force_count (ms i) + 2 \<le> FORCES_CAPACITY"
    and "force_count (ms j) + 2 \<le> FORCES_CAPACITY"
  shows "let span = Vector2Subtract (position (ms j)) (position (ms i));
             direction = Vector2Normalize span;
             displacement = length_s spring - Vector2Length span;
             rate = Vector2DotProduct (velocity (ms i)) direction
                    - Vector2DotProduct (velocity (ms j)) direction;
             f1 = Vector2Scale direction (strength spring * - displacement);
             f2 = Vector2Scale direction (dampening spring * - rate)
         in spring_step_applied spring ms
              = Some ([f1, f2], [Vector2Negate f1, Vector2Negate f2], [])
            \<and> Vector2Add (sum_forces [f1, f2])
                          (sum_forces [Vector2Negate f1, Vector2Negate f2]) = Vector2Zero"
proof -
  have ci: "force_count (ms i) < FORCES_CAPACITY" "Suc (force_count (ms i)) < FORCES_CAPACITY"
    and cj: "force_count (ms j) < FORCES_CAPACITY" "Suc (force_count (ms j)) < FORCES_CAPACITY"
    using assms(4,5) by simp_all
  show ?thesis
    using assms(1,2,3) ci cj
    by (simp add: Let_def spring_step_applied_def spring_update_def
        store_force_append_free applied_two
        Vector2Scale_def Vector2Negate_def Vector2Add_def Vector2Zero_def)
qed

theorem spring_update_third_law_witness:
  "first example_spring = Some 0 \<and> second example_spring = Some 1 \<and> (0::nat) \<noteq> 1
   \<and> force_count (example_store 0 62 0) + 2 \<le> FORCES_CAPACITY
   \<and> force_count (example_store 0 62 1) + 2 \<le> FORCES_CAPACITY
   \<and> spring_step_applied example_spring (example_store 0 62)
       = Some ([\<lparr>x = 0, y = 0\<rparr>, \<lparr>x = -1, y = 0\<rparr>], [\<lparr>x = 0, y = 0\<rparr>, \<lparr>x = 1, y = 0\<rparr>], [])"
  using spring_update_third_law [of example_spring 0 1 "example_store 0 62"]
  by (simp add: example_defs constant_defs vector_defs Let_def)

text \<open>
  Claim C2 as stated fails: with 63 forces on the first endpoint its list is not at
  capacity, the spring force takes the last slot and the damping force is dropped, while
  the second endpoint receives both; the forces applied to the pair sum to (1, 0).
\<close>

theorem spring_update_third_law_counterexample:
  "force_count (example_store 63 0 0) < FORCES_CAPACITY
   \<and> force_count (example_store 63 0 1) < FORCES_CAPACITY
   \<and> spring_step_applied example_spring (example_store 63 0)
       = Some ([\<lparr>x = 0, y = 0\<rparr>], [\<lparr>x = 0, y = 0\<rparr>, \<lparr>x = 1, y = 0\<rparr>], [ForcesFull])
   \<and> Vector2Add (sum_forces [\<lparr>x = 0, y = 0\<rparr>])
                  (sum_forces [\<lparr>x = 0, y = 0\<rparr>, \<lparr>x = 1, y = 0\<rparr>]) \<noteq> Vector2Zero"
  by (simp add: example_defs constant_defs vector_defs Let_def spring_step_applied_def
      spring_update_def store_force_append_def mass_force_append_def applied_forces_def
      upt_conv_Cons)

text \<open>
  Claim C10. The four appends of \<open>spring_update\<close> are independent: when the first
  endpoint's list is full and the second's has room for two forces, both forces of the
  second endpoint are appended, the first endpoint is left as it was, two lines are
  printed, and the net force applied to the pair is the sum of the second endpoint's two
  forces, direction * (strength * displacement + dampening * rate).
\<close>

theorem spring_update_unpaired_overflow:
  assumes "first spring = Some i" and "second spring = Some j" and "i \<noteq> j"
    and "FORCES_CAPACITY \<le> force_count (ms i)"
    and "force_count (ms j) + 2 \<le> FORCES_CAPACITY"
  shows "let span = Vector2Subtract (position (ms j)) (position (ms i));
             direction = Vector2Normalize span;
             displacement = length_s spring - Vector2Length span;
             rate = Vector2DotProduct (velocity (ms i)) direction
                    - Vector2DotProduct (velocity (ms j)) direction;
             g1 = Vector2Scale direction (strength spring * displacement);
             g2 = Vector2Scale direction (dampening spring * rate)
         in spring_step_applied spring ms = Some ([], [g1, g2], [ForcesFull, ForcesFull])
            \<and> map_option (\<lambda>st. fst st i) (spring_update spring ms) = Some (ms i)
            \<and> Vector2Add (sum_forces []) (sum_forces [g1, g2]) =
                Vector2Scale direction (strength spring * displacement + dampening spring * rate)"
proof -
  have cj: "force_count (ms j) < FORCES_CAPACITY" "Suc (force_count (ms j)) < FORCES_CAPACITY"
    using assms(5) by simp_all
  show ?thesis
    using assms(1,2,3,4) cj
    by (simp add: Let_def spring_step_applied_def spring_update_def
        store_force_append_free store_force_append_full applied_two applied_none
        Vector2Scale_def Vector2Add_def Vector2Zero_def algebra_simps)
qed

theorem spring_update_unpaired_overflow_witness:
  "first example_spring = Some 0 \<and> second example_spring = Some 1 \<and> (0::nat) \<noteq> 1
   \<and> FORCES_CAPACITY \<le> force_count (example_store 64 0 0)
   \<and> force_count (example_store 64 0 1) + 2 \<le> FORCES_CAPACITY
   \<and> spring_step_applied example_spring (example_store 64 0)
       = Some ([], [\<lparr>x = 0, y = 0\<rparr>, \<lparr>x = 1, y = 0\<rparr>], [ForcesFull, ForcesFull])
   \<and> Vector2Add (sum_forces []) (sum_forces [\<lparr>x = 0, y = 0\<rparr>, \<lparr>x = 1, y = 0\<rparr>])
       = \<lparr>x = 1, y = 0\<rparr>
   \<and> \<lparr>x = 1, y = 0\<rparr> \<noteq> Vector2Zero"
  using spring_update_unpaired_overflow [of example_spring 0 1 "example_store 64 0"]
  by (simp add: example_defs constant_defs vector_defs Let_def)

subsection \<open>Superposition of forces\<close>

lemma mass_force_append_free:
  "force_count a < FORCES_CAPACITY \<Longrightarrow>
   fst (mass_force_append a f) =
     a\<lparr>forces := (forces a)(force_count a := f), force_count := Suc (force_count a)\<rparr>"
  by (simp add: mass_force_append_def)

lemma accumulate_sums:
  "force_count m + length fs \<le> FORCES_CAPACITY \<Longrightarrow>
   (\<Sum>i<force_count (accumulate m fs). x (forces (accumulate m fs) i) / c)
     = (\<Sum>i<force_count m. x (forces m i) / c) + (\<Sum>f\<leftarrow>fs. x f / c)
   \<and> (\<Sum>i<force_count (accumulate m fs). y (forces (accumulate m fs) i) / c)
     = (\<Sum>i<force_count m. y (forces m i) / c) + (\<Sum>f\<leftarrow>fs. y f / c)
   \<and> velocity (accumulate m fs) = velocity m
   \<and> mass_value (accumulate m fs) = mass_value m
   \<and> fixed (accumulate m fs) = fixed m"
proof (induction fs arbitrary: m)
  case Nil
  then show ?case by (simp add: accumulate_def)
next
  case (Cons f fs)
  let ?m1 = "fst (mass_force_append m f)"
  have free: "force_count m < FORCES_CAPACITY" using Cons.prems by simp
  have m1: "?m1 = m\<lparr>forces := (forces m)(force_count m := f),
                     force_count := Suc (force_count m)\<rparr>"
    using free by (rule mass_force_append_free)
  have "force_count ?m1 + length fs \<le> FORCES_CAPACITY"
    using Cons.prems by (simp add: m1)
  from Cons.IH [OF this] have ih:
    "(\<Sum>i<force_count (accumulate ?m1 fs). x (forces (accumulate ?m1 fs) i) / c)
       = (\<Sum>i<force_count ?m1. x (forces ?m1 i) / c) + (\<Sum>f\<leftarrow>fs. x f / c)"
    "(\<Sum>i<force_count (accumulate ?m1 fs). y (forces (accumulate ?m1 fs) i) / c)
       = (\<Sum>i<force_count ?m1. y (forces ?m1 i) / c) + (\<Sum>f\<leftarrow>fs. y f / c)"
    "velocity (accumulate ?m1 fs) = velocity ?m1"
    "mass_value (accumulate ?m1 fs) = mass_value ?m1"
    "fixed (accumulate ?m1 fs) = fixed ?m1"
    by simp_all
  have acc: "accumulate m (f # fs) = accumulate ?m1 fs"
    by (simp add: accumulate_def)
  show ?case
    unfolding acc ih by (simp add: m1)
qed

lemma integrate_once_velocity:
  assumes "\<not> fixed m" and "force_count m = 0" and "length fs \<le> FORCES_CAPACITY"
  shows "velocity (integrate_once m dt fs) =
           \<lparr>x = x (velocity m) + (\<Sum>f\<leftarrow>fs. x f / mass_value m) * dt,
            y = y (velocity m) + (98 + (\<Sum>f\<leftarrow>fs. y f / mass_value m)) * dt\<rparr>"
proof -
  have cap: "force_count m + length fs \<le> FORCES_CAPACITY" using assms by simp
  note s = accumulate_sums [OF cap, of "mass_value m"]
  have nf: "\<not> fixed (accumulate m fs)" using s assms(1) by simp
  show ?thesis
    unfolding integrate_once_def
    using s assms(2) mass_update_free(1,2) [OF nf, of dt]
    by (simp add: Vector2Add_def Vector2Scale_def GRAVITATIONAL_ACCELERATION_def)
qed

lemma integrate_pass_velocity:
  assumes "\<not> fixed m" and "force_count m = 0"
  shows "velocity (integrate_pass dt f m) =
           \<lparr>x = x (velocity m) + (x f / mass_value m) * dt,
            y = y (velocity m) + (98 + y f / mass_value m) * dt\<rparr>
         \<and> \<not> fixed (integrate_pass dt f m) \<and> force_count (integrate_pass dt f m) = 0
         \<and> mass_value (integrate_pass dt f m) = mass_value m"
proof -
  have "integrate_pass dt f m = mass_reset_forces (integrate_once m dt [f])"
    by (simp add: integrate_pass_def integrate_once_def accumulate_def)
  moreover have "length [f] \<le> FORCES_CAPACITY" by (simp add: FORCES_CAPACITY_def)
  ultimately show ?thesis
    using integrate_once_velocity [OF assms, of "[f]" dt] assms
    by (simp add: mass_reset_forces_def integrate_once_def accumulate_def
        mass_force_append_def FORCES_CAPACITY_def mass_update_def Let_def accumulate_loop)
qed

lemma integrate_each_velocity:
  assumes "\<not> fixed m" and "force_count m = 0"
  shows "velocity (integrate_each m dt fs) =
           \<lparr>x = x (velocity m) + (\<Sum>f\<leftarrow>fs. x f / mass_value m) * dt,
            y = y (velocity m) + (98 * real (length fs) + (\<Sum>f\<leftarrow>fs. y f / mass_value m)) * dt\<rparr>"
  using assms
proof (induction fs arbitrary: m)
  case Nil
  then show ?case by (simp add: integrate_each_def)
next
  case (Cons f fs)
  note p = integrate_pass_velocity [OF Cons.prems, of dt f]
  have "integrate_each m dt (f # fs) = integrate_each (integrate_pass dt f m) dt fs"
    by (simp add: integrate_each_def)
  then show ?case
    using Cons.IH [of "integrate_pass dt f m"] p
    by (simp add: algebra_simps)
qed

text \<open>
  Claim C4, as amended. For a free mass with zero initial velocity and an empty force
  list, and N forces that fit the list, the velocity after N passes with one force each
  is the velocity after one pass with all N forces plus (N - 1) * dt times the
  gravitational acceleration: every pass adds gravity once more. The two velocities are
  equal exactly when N = 1 or dt = 0.
\<close>

theorem superposition_up_to_gravity:
  assumes "\<not> fixed m" and "mass_value m \<noteq> 0" and "velocity m = Vector2Zero"
    and "force_count m = 0" and "length fs \<le> FORCES_CAPACITY"
  shows "velocity (integrate_each m dt fs) =
           Vector2Add (velocity (integrate_once m dt fs))
             (Vector2Scale GRAVITATIONAL_ACCELERATION ((real (length fs) - 1) * dt))
         \<and> (velocity (integrate_each m dt fs) = velocity (integrate_once m dt fs)
              \<longleftrightarrow> length fs = 1 \<or> dt = 0)"
proof -
  note e = integrate_each_velocity [OF assms(1,4), of dt fs]
  note o = integrate_once_velocity [OF assms(1,4,5), of dt]
  have "real (length fs) = 1 \<longleftrightarrow> length fs = 1" by linarith
  then show ?thesis
    unfolding e o
    by (auto simp: Vector2Add_def Vector2Scale_def GRAVITATIONAL_ACCELERATION_def algebra_simps)
qed

theorem superposition_up_to_gravity_witness:
  "\<not> fixed unit_mass \<and> mass_value unit_mass \<noteq> 0 \<and> velocity unit_mass = Vector2Zero
   \<and> force_count unit_mass = 0 \<and> length [\<lparr>x = 1, y = 0\<rparr>, \<lparr>x = 0, y = 1\<rparr>] \<le> FORCES_CAPACITY
   \<and> velocity (integrate_each unit_mass (1/2) [\<lparr>x = 1, y = 0\<rparr>, \<lparr>x = 0, y = 1\<rparr>]) =
       Vector2Add (velocity (integrate_once unit_mass (1/2) [\<lparr>x = 1, y = 0\<rparr>, \<lparr>x = 0, y = 1\<rparr>]))
                  \<lparr>x = 0, y = 49\<rparr>"
  using superposition_up_to_gravity [of unit_mass "[\<lparr>x = 1, y = 0\<rparr>, \<lparr>x = 0, y = 1\<rparr>]" "1/2"]
  by (simp add: unit_mass_def zero_mass_def FORCES_CAPACITY_def
      GRAVITATIONAL_ACCELERATION_def Vector2Scale_def Vector2Zero_def)

text \<open>
  Claim C4 as stated fails: for a unit mass at rest, dt = 1 and the two forces (1, 0)
  and (0, 1), one pass with both forces gives the velocity (1, 99) and two passes with
  one force each give (1, 197).
\<close>

theorem superposition_counterexample:
  "\<not> fixed unit_mass \<and> velocity unit_mass = Vector2Zero \<and> force_count unit_mass = 0
   \<and> velocity (integrate_once unit_mass 1 [\<lparr>x = 1, y = 0\<rparr>, \<lparr>x = 0, y = 1\<rparr>]) = \<lparr>x = 1, y = 99\<rparr>
   \<and> velocity (integrate_each unit_mass 1 [\<lparr>x = 1, y = 0\<rparr>, \<lparr>x = 0, y = 1\<rparr>]) = \<lparr>x = 1, y = 197\<rparr>
   \<and> velocity (integrate_each unit_mass 1 [\<lparr>x = 1, y = 0\<rparr>, \<lparr>x = 0, y = 1\<rparr>])
       \<noteq> velocity (integrate_once unit_mass 1 [\<lparr>x = 1, y = 0\<rparr>, \<lparr>x = 0, y = 1\<rparr>])"
  by (simp add: unit_mass_def zero_mass_def integrate_once_def integrate_each_def
      integrate_pass_def accumulate_def mass_force_append_def mass_reset_forces_def
      mass_update_def Let_def for_upto_Suc FORCES_CAPACITY_def
      GRAVITATIONAL_ACCELERATION_def vector_defs)

subsection \<open>Rejected calls\<close>

text \<open>
  Claim C5. \<open>system_add_spring\<close> succeeds exactly when the spring collection is not
  full and both indices are below the mass count; it then stores the spring, bound to
  the two indices, at the end of the collection and changes nothing else. Otherwise it
  prints one line and the system is exactly as before.
\<close>

theorem add_spring_validates:
  "(spring_count s < SYSTEM_CAPACITY \<and> i < mass_count s \<and> j < mass_count s \<longrightarrow>
      snd (system_add_spring s spring i j) = []
      \<and> spring_count (fst (system_add_spring s spring i j)) = spring_count s + 1
      \<and> springs (fst (system_add_spring s spring i j)) (spring_count s)
          = spring\<lparr>first := Some i, second := Some j\<rparr>
      \<and> (\<forall>n. n \<noteq> spring_count s \<longrightarrow>
             springs (fst (system_add_spring s spring i j)) n = springs s n)
      \<and> masses (fst (system_add_spring s spring i j)) = masses s
      \<and> mass_count (fst (system_add_spring s spring i j)) = mass_count s)
   \<and> (\<not> (spring_count s < SYSTEM_CAPACITY \<and> i < mass_count s \<and> j < mass_count s) \<longrightarrow>
        fst (system_add_spring s spring i j) = s
        \<and> snd (system_add_spring s spring i j) =
            [if SYSTEM_CAPACITY \<le> spring_count s then SpringsFull
             else if mass_count s \<le> i then FirstIndexOutOfRange
             else SecondIndexOutOfRange])"
proof (cases "spring_count s < SYSTEM_CAPACITY \<and> i < mass_count s \<and> j < mass_count s")
  case True
  then have "system_add_spring s spring i j =
               (s\<lparr>springs := (springs s)(spring_count s := spring\<lparr>first := Some i, second := Some j\<rparr>),
                  spring_count := spring_count s + 1\<rparr>, [])"
    by (simp add: system_add_spring_def Let_def)
  with True show ?thesis by simp
next
  case False
  then consider "SYSTEM_CAPACITY \<le> spring_count s"
    | "spring_count s < SYSTEM_CAPACITY" "mass_count s \<le> i"
    | "spring_count s < SYSTEM_CAPACITY" "i < mass_count s" "mass_count s \<le> j"
    by linarith
  then have "system_add_spring s spring i j =
               (s, [if SYSTEM_CAPACITY \<le> spring_count s then SpringsFull
                    else if mass_count s \<le> i then FirstIndexOutOfRange
                    else SecondIndexOutOfRange])"
    by cases (simp_all add: system_add_spring_def)
  with False show ?thesis by simp
qed

theorem add_spring_validates_witness:
  "spring_count (example_system 2 0) < SYSTEM_CAPACITY
   \<and> 0 < mass_count (example_system 2 0) \<and> 1 < mass_count (example_system 2 0)
   \<and> spring_count (fst (system_add_spring (example_system 2 0) example_spring 0 1)) = 1
   \<and> first (springs (fst (system_add_spring (example_system 2 0) example_spring 0 1)) 0) = Some 0
   \<and> second (springs (fst (system_add_spring (example_system 2 0) example_spring 0 1)) 0) = Some 1
   \<and> \<not> (spring_count (example_system 2 0) < SYSTEM_CAPACITY
        \<and> 0 < mass_count (example_system 2 0) \<and> 2 < mass_count (example_system 2 0))
   \<and> system_add_spring (example_system 2 0) example_spring 0 2
       = (example_system 2 0, [SecondIndexOutOfRange])"
  using add_spring_validates [where s = "example_system 2 0" and i = 0 and j = 1
                                and spring = example_spring]
        add_spring_validates [where s = "example_system 2 0" and i = 0 and j = 2
                                and spring = example_spring]
  by (simp add: example_defs constant_defs prod_eq_iff)

text \<open>
  Claim C6. \<open>system_add_mass\<close> on a full mass collection prints one line and leaves the
  system as it was. \<open>mass_force_append\<close> on a full force list prints one line and leaves
  the mass as it was; otherwise it stores the force at the end of the list and the force
  count grows by exactly one.
\<close>

theorem capacity_rejection:
  "(SYSTEM_CAPACITY \<le> mass_count s \<longrightarrow>
      fst (system_add_mass s m) = s \<and> snd (system_add_mass s m) = [MassesFull])
   \<and> (FORCES_CAPACITY \<le> force_count a \<longrightarrow>
        fst (mass_force_append a f) = a \<and> snd (mass_force_append a f) = [ForcesFull])
   \<and> (force_count a < FORCES_CAPACITY \<longrightarrow>
        snd (mass_force_append a f) = []
        \<and> force_count (fst (mass_force_append a f)) = force_count a + 1
        \<and> forces (fst (mass_force_append a f)) (force_count a) = f
        \<and> (\<forall>n. n \<noteq> force_count a \<longrightarrow>
               forces (fst (mass_force_append a f)) n = forces a n)
        \<and> kinematics_kept a (fst (mass_force_append a f))
        \<and> acceleration (fst (mass_force_append a f)) = acceleration a
        \<and> mass_value (fst (mass_force_append a f)) = mass_value a)"
proof -
  have full_system: "system_add_mass s m = (s, [MassesFull])"
    if "SYSTEM_CAPACITY \<le> mass_count s"
    using that by (simp add: system_add_mass_def)
  have full_list: "mass_force_append a f = (a, [ForcesFull])"
    if "FORCES_CAPACITY \<le> force_count a"
    using that by (simp add: mass_force_append_def)
  have room: "mass_force_append a f =
                (a\<lparr>forces := (forces a)(force_count a := f),
                   force_count := force_count a + 1\<rparr>, [])"
    if "force_count a < FORCES_CAPACITY"
    using that by (simp add: mass_force_append_def)
  show ?thesis
    using full_system full_list room by (simp add: kinematics_kept_def)
qed

theorem capacity_rejection_witness:
  "SYSTEM_CAPACITY \<le> mass_count (example_system 8096 0)
   \<and> system_add_mass (example_system 8096 0) unit_mass = (example_system 8096 0, [MassesFull])
   \<and> FORCES_CAPACITY \<le> force_count (moving_mass 64)
   \<and> mass_force_append (moving_mass 64) \<lparr>x = 1, y = 2\<rparr> = (moving_mass 64, [ForcesFull])
   \<and> force_count (moving_mass 3) < FORCES_CAPACITY
   \<and> force_count (fst (mass_force_append (moving_mass 3) \<lparr>x = 1, y = 2\<rparr>)) = 4
   \<and> forces (fst (mass_force_append (moving_mass 3) \<lparr>x = 1, y = 2\<rparr>)) 3 = \<lparr>x = 1, y = 2\<rparr>
   \<and> snd (mass_force_append (moving_mass 3) \<lparr>x = 1, y = 2\<rparr>) = []"
proof -
  have full_system: "SYSTEM_CAPACITY \<le> mass_count (example_system 8096 0)"
    by (simp add: example_system_def SYSTEM_CAPACITY_def)
  have full_list: "FORCES_CAPACITY \<le> force_count (moving_mass 64)"
    by (simp add: moving_mass_def FORCES_CAPACITY_def)
  have room: "force_count (moving_mass 3) < FORCES_CAPACITY" "force_count (moving_mass 3) = 3"
    by (simp_all add: moving_mass_def FORCES_CAPACITY_def)
  show ?thesis
    using full_system full_list room
      capacity_rejection [where s = "example_system 8096 0" and m = unit_mass
                            and a = "moving_mass 64" and f = "\<lparr>x = 1, y = 2\<rparr>"]
      capacity_rejection [where s = "example_system 8096 0" and m = unit_mass
                            and a = "moving_mass 3" and f = "\<lparr>x = 1, y = 2\<rparr>"]
    by (simp add: prod_eq_iff)
qed

subsection \<open>Fixed masses\<close>

lemma kinematics_kept_refl [simp]: "kinematics_kept m m"
  by (simp add: kinematics_kept_def)

lemma kinematics_kept_trans:
  "kinematics_kept a b \<Longrightarrow> kinematics_kept b c \<Longrightarrow> kinematics_kept a c"
  by (simp add: kinematics_kept_def)

lemma store_force_append_kept:
  "kinematics_kept (fst st i) (fst (store_force_append k f st) i)"
  by (cases st) (simp add: store_force_append_def mass_force_append_def kinematics_kept_def)

text \<open>\<open>spring_update\<close> returns a store exactly when both endpoints are set, and the
  store is then the result of four appends.\<close>

lemma spring_update_appends:
  assumes "spring_update spring ms = Some st"
  obtains i j f1 f2 f3 f4 where "first spring = Some i" and "second spring = Some j"
    and "st = store_force_append j f4 (store_force_append i f3
                (store_force_append j f2 (store_force_append i f1 (ms, []))))"
  using assms by (auto simp: spring_update_def Let_def split: option.splits)

lemma spring_update_kept:
  assumes "spring_update spring ms = Some (ms', r)"
  shows "kinematics_kept (ms i) (ms' i)"
proof -
  from assms obtain a b f1 f2 f3 f4 where
    st: "(ms', r) = store_force_append b f4 (store_force_append a f3
                      (store_force_append b f2 (store_force_append a f1 (ms, []))))"
    by (rule spring_update_appends)
  have step: "kinematics_kept (ms i) (fst st i) \<Longrightarrow>
              kinematics_kept (ms i) (fst (store_force_append k f st) i)" for st k f
    using store_force_append_kept kinematics_kept_trans by blast
  have "kinematics_kept (ms i) (fst (ms, []::report list) i)" by simp
  then have "kinematics_kept (ms i) (fst (store_force_append b f4 (store_force_append a f3
                      (store_force_append b f2 (store_force_append a f1 (ms, []))))) i)"
    by (intro step)
  with st show ?thesis by (metis fst_conv)
qed

lemma system_spring_update_kept:
  assumes "system_spring_update s = Some (s', r)"
  shows "kinematics_kept (masses s i) (masses s' i) \<and> mass_count s' = mass_count s"
proof -
  let ?P = "\<lambda>st. case st of None \<Rightarrow> True
                    | Some (t, out) \<Rightarrow> kinematics_kept (masses s i) (masses t i)
                                       \<and> mass_count t = mass_count s"
  have "?P (system_spring_update s)"
    unfolding system_spring_update_def
  proof (rule for_upto_invariant [where P = ?P], goal_cases)
    case 1
    show ?case by simp
  next
    case (2 k st)
    then show ?case
      by (auto split: option.splits dest: spring_update_kept [where i = i]
          intro: kinematics_kept_trans)
  qed
  with assms show ?thesis by simp
qed

lemma system_mass_update_kept:
  assumes "fixed (masses s i)"
  shows "kinematics_kept (masses s i) (masses (system_mass_update s dt) i)
         \<and> mass_count (system_mass_update s dt) = mass_count s"
proof -
  let ?P = "\<lambda>t. kinematics_kept (masses s i) (masses t i) \<and> mass_count t = mass_count s"
  show ?thesis
    unfolding system_mass_update_def
  proof (rule for_upto_invariant [where P = ?P], goal_cases)
    case 1
    show ?case by simp
  next
    case (2 k t)
    with assms show ?case
      by (auto simp: kinematics_kept_def mass_update_fixed)
  qed
qed

lemma system_mass_reset_forces_kept:
  "kinematics_kept (masses s i) (masses (system_mass_reset_forces s) i)
   \<and> mass_count (system_mass_reset_forces s) = mass_count s"
proof -
  let ?P = "\<lambda>t. kinematics_kept (masses s i) (masses t i) \<and> mass_count t = mass_count s"
  show ?thesis
    unfolding system_mass_reset_forces_def
  proof (rule for_upto_invariant [where P = ?P], goal_cases)
    case 1
    show ?case by simp
  next
    case (2 k t)
    then show ?case
      by (auto simp: kinematics_kept_def mass_reset_forces_def)
  qed
qed

lemma system_mass_force_append_kept:
  "kinematics_kept (masses s i) (masses (fst (system_mass_force_append s f)) i)
   \<and> mass_count (fst (system_mass_force_append s f)) = mass_count s"
proof -
  let ?P = "\<lambda>st. kinematics_kept (masses s i) (masses (fst st) i)
                 \<and> mass_count (fst st) = mass_count s"
  show ?thesis
    unfolding system_mass_force_append_def
  proof (rule for_upto_invariant [where P = ?P], goal_cases)
    case 1
    show ?case by simp
  next
    case (2 k st)
    then show ?case
      by (cases st) (auto simp: kinematics_kept_def mass_force_append_def)
  qed
qed

text \<open>
  Claim C7. A fixed mass of the system keeps its position and its velocity, and stays
  fixed, under every operation that does not rebuild the mass collection: adding a mass
  or a spring, the spring step with any accumulated forces, the mass step with any dt,
  clearing the forces and applying a uniform force; and \<open>mass_update\<close> with any dt
  returns a fixed mass as it was.
\<close>

theorem fixed_mass_never_moves:
  assumes "fixed (masses s i)" and "i < mass_count s" and "\<not> rebuilds op"
    and "apply_operation op s = Some (s', r)"
  shows "position (masses s' i) = position (masses s i)
         \<and> velocity (masses s' i) = velocity (masses s i)
         \<and> fixed (masses s' i) \<and> i < mass_count s'
         \<and> mass_update (masses s i) dt = masses s i"
proof -
  have "kinematics_kept (masses s i) (masses s' i) \<and> i < mass_count s'"
  proof (cases op)
    case (AddMass m)
    with assms show ?thesis
      by (auto simp: system_add_mass_def kinematics_kept_def split: if_splits)
  next
    case (AddSpring spring m1 m2)
    with assms show ?thesis
      by (auto simp: system_add_spring_def kinematics_kept_def Let_def split: if_splits)
  next
    case (BuildGrid rows cols origin cell_size mass_arg k d)
    with assms show ?thesis by simp
  next
    case StepSprings
    with assms system_spring_update_kept [of s s' r i] show ?thesis by simp
  next
    case (StepMasses dt')
    with assms system_mass_update_kept [of s i dt'] show ?thesis by auto
  next
    case ResetForces
    with assms system_mass_reset_forces_kept [of s i] show ?thesis by auto
  next
    case (ApplyUniformForce f)
    with assms system_mass_force_append_kept [of s i f] show ?thesis by auto
  qed
  with assms(1) show ?thesis
    by (simp add: kinematics_kept_def mass_update_fixed)
qed

theorem fixed_mass_never_moves_witness:
  "fixed (masses pinned_system 0) \<and> 0 < mass_count pinned_system
   \<and> \<not> rebuilds (StepMasses (1/2))
   \<and> apply_operation (StepMasses (1/2)) pinned_system
       = Some (system_mass_update pinned_system (1/2), [])
   \<and> position (masses (system_mass_update pinned_system (1/2)) 0) = \<lparr>x = 2, y = 3\<rparr>
   \<and> velocity (masses (system_mass_update pinned_system (1/2)) 0) = \<lparr>x = 1, y = 0\<rparr>
   \<and> fixed (masses (system_mass_update pinned_system (1/2)) 0)"
  using fixed_mass_never_moves [where s = pinned_system and i = 0 and op = "StepMasses (1/2)"
                                  and s' = "system_mass_update pinned_system (1/2)" and r = "[]"]
  by (simp add: example_defs)

subsection \<open>Spring endpoints\<close>

lemma topology_kept_refl [simp]: "topology_kept s s"
  by (simp add: topology_kept_def)

lemma bound_below_iff:
  "bound_below n spring \<longleftrightarrow>
     (\<exists>i j. first spring = Some i \<and> second spring = Some j \<and> i < n \<and> j < n)"
  by (simp add: bound_below_def split: option.splits)

lemma bound_below_mono: "bound_below n spring \<Longrightarrow> n \<le> n' \<Longrightarrow> bound_below n' spring"
  by (auto simp: bound_below_iff)

lemma topology_kept_endpoints:
  "topology_kept s t \<Longrightarrow> endpoints_in_system s \<Longrightarrow> endpoints_in_system t"
  "topology_kept s t \<Longrightarrow> endpoints_distinct s \<Longrightarrow> endpoints_distinct t"
  by (simp_all add: topology_kept_def endpoints_in_system_def endpoints_distinct_def)

lemma system_mass_update_topology: "topology_kept s (system_mass_update s dt)"
  unfolding system_mass_update_def
  by (rule for_upto_invariant [where P = "topology_kept s"]) (simp_all add: topology_kept_def)

lemma system_mass_reset_forces_topology: "topology_kept s (system_mass_reset_forces s)"
  unfolding system_mass_reset_forces_def
  by (rule for_upto_invariant [where P = "topology_kept s"]) (simp_all add: topology_kept_def)

lemma system_mass_force_append_topology:
  "topology_kept s (fst (system_mass_force_append s f))"
  unfolding system_mass_force_append_def
  by (rule for_upto_invariant [where P = "\<lambda>st. topology_kept s (fst st)"])
    (auto simp: topology_kept_def split: prod.splits)

lemma spring_update_defined:
  "first spring = Some i \<Longrightarrow> second spring = Some j \<Longrightarrow> \<exists>st. spring_update spring ms = Some st"
  by (simp add: spring_update_def Let_def)

lemma system_spring_update_topology:
  assumes "endpoints_in_system s"
  shows "\<exists>t out. system_spring_update s = Some (t, out) \<and> topology_kept s t"
proof -
  let ?P = "\<lambda>st. \<exists>t out. st = Some (t, out) \<and> topology_kept s t"
  show ?thesis
    unfolding system_spring_update_def
  proof (rule for_upto_invariant [where P = ?P], goal_cases)
    case 1
    show ?case by simp
  next
    case (2 k st)
    then obtain t out where st: "st = Some (t, out)" and kept: "topology_kept s t"
      by blast
    from assms 2(2) have "bound_below (mass_count s) (springs s k)"
      by (simp add: endpoints_in_system_def)
    then obtain i j where
      "first (springs s k) = Some i" "second (springs s k) = Some j"
      by (auto simp: bound_below_iff)
    then obtain ms' r where "spring_update (springs t k) (masses t) = Some (ms', r)"
      using kept spring_update_defined [of "springs t k" i j "masses t"]
      by (auto simp: topology_kept_def)
    with st kept show ?case
      by (simp add: topology_kept_def)
  qed
qed

lemma system_add_mass_endpoints:
  "endpoints_in_system s \<Longrightarrow> endpoints_in_system (fst (system_add_mass s m))"
  "endpoints_distinct s \<Longrightarrow> endpoints_distinct (fst (system_add_mass s m))"
  by (auto simp: system_add_mass_def endpoints_in_system_def endpoints_distinct_def
      intro: bound_below_mono)

lemma system_add_spring_in_system:
  "endpoints_in_system s \<Longrightarrow> endpoints_in_system (fst (system_add_spring s spring i j))"
  by (auto simp: system_add_spring_def endpoints_in_system_def Let_def bound_below_iff)

lemma system_add_spring_distinct:
  "endpoints_distinct s \<Longrightarrow> i \<noteq> j \<Longrightarrow>
   endpoints_distinct (fst (system_add_spring s spring i j))"
  by (auto simp: system_add_spring_def endpoints_distinct_def Let_def)

lemma add_mass_step_fst: "fst (add_mass_step m st) = fst (system_add_mass (fst st) m)"
  by (simp add: add_mass_step_def split: prod.splits)

lemma add_spring_step_fst:
  "fst (add_spring_step spring i j st) = fst (system_add_spring (fst st) spring i j)"
  by (simp add: add_spring_step_def split: prod.splits)

lemma add_mass_step_ok: "grid_ok st \<Longrightarrow> grid_ok (add_mass_step m st)"
  by (simp add: grid_ok_def add_mass_step_fst system_add_mass_endpoints)

lemma add_spring_step_ok: "grid_ok st \<Longrightarrow> i \<noteq> j \<Longrightarrow> grid_ok (add_spring_step spring i j st)"
  by (simp add: grid_ok_def add_spring_step_fst system_add_spring_in_system
      system_add_spring_distinct)

lemma grid_springs_body_ok:
  assumes "grid_ok st" and "c < cols"
  shows "grid_ok (grid_springs_body rows cols cell_size k d r c st)"
proof -
  have "r * cols + c \<noteq> r * cols + c + 1" by simp
  moreover have "r * cols + c \<noteq> (r + 1) * cols + c" using assms(2) by simp
  ultimately show ?thesis
    using assms(1) by (simp add: grid_springs_body_def Let_def add_spring_step_ok)
qed

lemma system_init_grid_ok:
  "grid_ok (system_init_grid s rows cols origin cell_size mass_arg k d)"
proof -
  let ?s0 = "s\<lparr>mass_count := 0, spring_count := 0\<rparr>"
  have start: "grid_ok (?s0, [])"
    by (simp add: grid_ok_def endpoints_in_system_def endpoints_distinct_def)
  have masses: "grid_ok (for_upto 0 rows
                  (\<lambda>r. for_upto 0 cols
                         (\<lambda>c. add_mass_step (grid_mass r c origin cell_size mass_arg)))
                  (?s0, []))"
    by (intro for_upto_invariant [where P = grid_ok] start add_mass_step_ok)
  show ?thesis
    unfolding system_init_grid_def Let_def
    by (intro for_upto_invariant [where P = grid_ok] masses grid_springs_body_ok)
qed

text \<open>
  Claim C8, as amended. When both endpoints of every spring of the collection are
  masses of the system's own collection, every operation runs to its end and keeps it
  so. The endpoints of every spring stay different as long as no spring is added with
  two equal indices: \<open>system_add_spring\<close> does not compare its two indices, and the
  springs of \<open>system_init_grid\<close> always join two different masses.
\<close>

theorem endpoints_invariant:
  assumes "endpoints_in_system s"
  shows "\<exists>s' r. apply_operation op s = Some (s', r) \<and> endpoints_in_system s'
           \<and> (endpoints_distinct s \<and> \<not> adds_self_loop op \<longrightarrow> endpoints_distinct s')"
proof (cases op)
  case (AddMass m)
  with assms show ?thesis
    by (cases "system_add_mass s m")
      (use system_add_mass_endpoints [of s m] in auto)
next
  case (AddSpring spring i j)
  with assms show ?thesis
    by (cases "system_add_spring s spring i j")
      (use system_add_spring_in_system [of s spring i j]
           system_add_spring_distinct [of s i j spring] in auto)
next
  case (BuildGrid rows cols origin cell_size mass_arg k d)
  then show ?thesis
    using system_init_grid_ok [of s rows cols origin cell_size mass_arg k d]
    by (cases "system_init_grid s rows cols origin cell_size mass_arg k d")
      (simp add: grid_ok_def)
next
  case StepSprings
  with assms show ?thesis
    using system_spring_update_topology [OF assms] topology_kept_endpoints by auto
next
  case (StepMasses dt)
  with assms show ?thesis
    using system_mass_update_topology [of s dt] topology_kept_endpoints by auto
next
  case ResetForces
  with assms show ?thesis
    using system_mass_reset_forces_topology [of s] topology_kept_endpoints by auto
next
  case (ApplyUniformForce f)
  with assms show ?thesis
    using system_mass_force_append_topology [of s f] topology_kept_endpoints
    by (cases "system_mass_force_append s f") auto
qed


theorem endpoints_invariant_witness:
  "endpoints_in_system sprung_system \<and> endpoints_distinct sprung_system
   \<and> \<not> adds_self_loop StepSprings
   \<and> (\<exists>s' r. apply_operation StepSprings sprung_system = Some (s', r)
              \<and> endpoints_in_system s' \<and> endpoints_distinct s')"
proof -
  have "endpoints_in_system sprung_system \<and> endpoints_distinct sprung_system"
    by (simp add: endpoints_in_system_def endpoints_distinct_def bound_below_def example_defs)
  then show ?thesis
    using endpoints_invariant [of sprung_system StepSprings] by auto
qed

text \<open>
  Claim C8 as stated fails: on a system with two masses and no spring,
  \<open>system_add_spring\<close> with the indices 0 and 0 succeeds without a report and stores a
  spring whose two endpoints are the same mass.
\<close>

theorem self_loop_counterexample:
  "endpoints_in_system (example_system 2 0) \<and> endpoints_distinct (example_system 2 0)
   \<and> snd (system_add_spring (example_system 2 0) example_spring 0 0) = []
   \<and> spring_count (fst (system_add_spring (example_system 2 0) example_spring 0 0)) = 1
   \<and> first (springs (fst (system_add_spring (example_system 2 0) example_spring 0 0)) 0) = Some 0
   \<and> second (springs (fst (system_add_spring (example_system 2 0) example_spring 0 0)) 0) = Some 0
   \<and> \<not> endpoints_distinct (fst (system_add_spring (example_system 2 0) example_spring 0 0))"
  by (simp add: endpoints_in_system_def endpoints_distinct_def system_add_spring_def Let_def
      example_defs constant_defs)

subsection \<open>The grid\<close>

lemma add_mass_step_filled:
  assumes "grid_filled cols origin cell_size mass_arg (r * cols + c) st"
    and "c < cols" and "r * cols + c < SYSTEM_CAPACITY"
  shows "grid_filled cols origin cell_size mass_arg (r * cols + Suc c)
           (add_mass_step (grid_mass r c origin cell_size mass_arg) st)"
proof -
  obtain s out where st: "st = (s, out)" by (cases st)
  have dm: "(r * cols + c) div cols = r" "(r * cols + c) mod cols = c"
    using assms(2) by simp_all
  show ?thesis
    using assms dm
    by (auto simp: st grid_filled_def add_mass_step_def system_add_mass_def less_Suc_eq)
qed

lemma grid_index_bound:
  assumes "r < rows" and "c < cols" and "rows * cols \<le> n"
  shows "r * cols + c < (n::nat)"
proof -
  have "r * cols + c < Suc r * cols" using assms(2) by simp
  also have "\<dots> \<le> rows * cols" using assms(1) by (intro mult_le_mono1) simp
  finally show ?thesis using assms(3) by simp
qed

lemma grid_row_filled:
  assumes "grid_filled cols origin cell_size mass_arg (r * cols) st"
    and "r < rows" and "rows * cols \<le> SYSTEM_CAPACITY"
  shows "grid_filled cols origin cell_size mass_arg (Suc r * cols)
           (for_upto 0 cols (\<lambda>c. add_mass_step (grid_mass r c origin cell_size mass_arg)) st)"
proof -
  let ?P = "\<lambda>c. grid_filled cols origin cell_size mass_arg (r * cols + c)"
  have "?P cols (for_upto 0 cols (\<lambda>c. add_mass_step (grid_mass r c origin cell_size mass_arg)) st)"
  proof (rule for_upto_indexed [where P = ?P], goal_cases)
    case 1
    show ?case using assms(1) by simp
  next
    case (2 c t)
    then show ?case
      using grid_index_bound [OF assms(2) 2(2) assms(3)]
      by (intro add_mass_step_filled) simp_all
  next
    case 3
    show ?case by simp
  qed
  then show ?thesis by (simp add: add.commute)
qed

lemma grid_masses_filled:
  assumes "rows * cols \<le> SYSTEM_CAPACITY"
  shows "grid_filled cols origin cell_size mass_arg (rows * cols)
           (for_upto 0 rows
              (\<lambda>r. for_upto 0 cols
                     (\<lambda>c. add_mass_step (grid_mass r c origin cell_size mass_arg)))
              (s\<lparr>mass_count := 0, spring_count := 0\<rparr>, []))"
proof (rule for_upto_indexed
    [where P = "\<lambda>r. grid_filled cols origin cell_size mass_arg (r * cols)"], goal_cases)
  case 1
  show ?case by (simp add: grid_filled_def)
next
  case (2 r t)
  then show ?case using assms by (intro grid_row_filled) simp_all
next
  case 3
  show ?case by simp
qed

text \<open>The second pair of loops adds springs only.\<close>

lemma add_spring_step_masses: "masses_kept st (add_spring_step spring i j st)"
  by (simp add: masses_kept_def add_spring_step_fst system_add_spring_def Let_def)

lemma masses_kept_trans: "masses_kept a b \<Longrightarrow> masses_kept b c \<Longrightarrow> masses_kept a c"
  by (simp add: masses_kept_def)

lemma grid_springs_body_masses:
  assumes "masses_kept st0 st"
  shows "masses_kept st0 (grid_springs_body rows cols cell_size k d r c st)"
proof -
  have step: "masses_kept st0 t \<Longrightarrow> masses_kept st0 (add_spring_step spring i j t)"
    for t spring i j
    using masses_kept_trans add_spring_step_masses by blast
  show ?thesis
    using assms by (simp add: grid_springs_body_def Let_def step)
qed

lemma grid_springs_masses:
  "masses_kept st
     (for_upto 0 rows
        (\<lambda>r. for_upto 0 cols (grid_springs_body rows cols cell_size k d r)) st)"
  by (intro for_upto_invariant [where P = "masses_kept st"] grid_springs_body_masses)
    (simp add: masses_kept_def)

lemma system_init_grid_masses:
  assumes "rows * cols \<le> SYSTEM_CAPACITY"
  shows "mass_count (fst (system_init_grid s rows cols origin cell_size mass_arg k d))
           = rows * cols"
    and "i < rows * cols \<Longrightarrow>
         masses (fst (system_init_grid s rows cols origin cell_size mass_arg k d)) i
           = grid_mass (i div cols) (i mod cols) origin cell_size mass_arg"
  using grid_masses_filled [OF assms, of origin cell_size mass_arg s]
    grid_springs_masses [of "for_upto 0 rows
              (\<lambda>r. for_upto 0 cols
                     (\<lambda>c. add_mass_step (grid_mass r c origin cell_size mass_arg)))
              (s\<lparr>mass_count := 0, spring_count := 0\<rparr>, [])" rows cols cell_size k d]
  by (simp_all add: system_init_grid_def Let_def grid_filled_def masses_kept_def)

text \<open>Whatever the parameters, the mass count stays within the capacity.\<close>

lemma add_mass_step_bounded:
  "mass_count (fst st) \<le> SYSTEM_CAPACITY \<Longrightarrow>
   mass_count (fst (add_mass_step m st)) \<le> SYSTEM_CAPACITY"
  by (simp add: add_mass_step_fst system_add_mass_def)

lemma system_init_grid_bounded:
  "mass_count (fst (system_init_grid s rows cols origin cell_size mass_arg k d))
     \<le> SYSTEM_CAPACITY"
proof -
  let ?st1 = "for_upto 0 rows
              (\<lambda>r. for_upto 0 cols
                     (\<lambda>c. add_mass_step (grid_mass r c origin cell_size mass_arg)))
              (s\<lparr>mass_count := 0, spring_count := 0\<rparr>, [])"
  have "mass_count (fst ?st1) \<le> SYSTEM_CAPACITY"
    by (intro for_upto_invariant [where P = "\<lambda>st. mass_count (fst st) \<le> SYSTEM_CAPACITY"]
        add_mass_step_bounded) simp
  then show ?thesis
    using grid_springs_masses [of ?st1 rows cols cell_size k d]
    by (simp add: system_init_grid_def Let_def masses_kept_def)
qed

lemma grid_2x2_value:
  "system_init_grid s 2 2 origin cell_size mass_arg k d =
     (s\<lparr>masses := (masses s)
            (0 := grid_mass 0 0 origin cell_size mass_arg,
             1 := grid_mass 0 1 origin cell_size mass_arg,
             2 := grid_mass 1 0 origin cell_size mass_arg,
             3 := grid_mass 1 1 origin cell_size mass_arg),
        springs := (springs s)
            (0 := (grid_spring cell_size k d)\<lparr>first := Some 0, second := Some 1\<rparr>,
             1 := (grid_spring cell_size k d)\<lparr>first := Some 0, second := Some 2\<rparr>,
             2 := (grid_spring cell_size k d)\<lparr>first := Some 1, second := Some 3\<rparr>,
             3 := (grid_spring cell_size k d)\<lparr>first := Some 2, second := Some 3\<rparr>),
        mass_count := 4, spring_count := 4\<rparr>, [])"
  by (simp add: system_init_grid_def Let_def numeral_2_eq_2 for_upto_Suc
      add_mass_step_def add_spring_step_def system_add_mass_def system_add_spring_def
      grid_springs_body_def SYSTEM_CAPACITY_def numeral_3_eq_3)

lemma less_four: "{..<4::nat} = {0, 1, 2, 3}"
  by auto

lemma grid_2x2:
  assumes "system_init_grid s 2 2 \<lparr>x = 0, y = 0\<rparr> 1 mass_arg k d = (t, out)"
  shows "mass_count t = 4 \<and> spring_count t = 4 \<and> out = []
     \<and> position (masses t 0) = \<lparr>x = 0, y = 0\<rparr> \<and> position (masses t 1) = \<lparr>x = 1, y = 0\<rparr>
     \<and> position (masses t 2) = \<lparr>x = 0, y = 1\<rparr> \<and> position (masses t 3) = \<lparr>x = 1, y = 1\<rparr>
     \<and> fixed (masses t 0) \<and> fixed (masses t 1) \<and> \<not> fixed (masses t 2) \<and> \<not> fixed (masses t 3)
     \<and> (\<lambda>n. (first (springs t n), second (springs t n), length_s (springs t n))) ` {..<4}
         = {(Some 0, Some 1, 1), (Some 2, Some 3, 1), (Some 0, Some 2, 1), (Some 1, Some 3, 1)}"
proof -
  have t: "t = fst (system_init_grid s 2 2 \<lparr>x = 0, y = 0\<rparr> 1 mass_arg k d)"
    and out: "out = snd (system_init_grid s 2 2 \<lparr>x = 0, y = 0\<rparr> 1 mass_arg k d)"
    using assms by simp_all
  have counts: "mass_count t = 4 \<and> spring_count t = 4 \<and> out = []"
    unfolding t out grid_2x2_value by simp
  have places: "position (masses t 0) = \<lparr>x = 0, y = 0\<rparr> \<and> position (masses t 1) = \<lparr>x = 1, y = 0\<rparr>
     \<and> position (masses t 2) = \<lparr>x = 0, y = 1\<rparr> \<and> position (masses t 3) = \<lparr>x = 1, y = 1\<rparr>"
    unfolding t grid_2x2_value by (simp add: grid_mass_def zero_mass_def vector_defs)
  have pins: "fixed (masses t 0) \<and> fixed (masses t 1) \<and> \<not> fixed (masses t 2) \<and> \<not> fixed (masses t 3)"
    unfolding t grid_2x2_value by (simp add: grid_mass_def zero_mass_def)
  have "(\<lambda>n. (first (springs t n), second (springs t n), length_s (springs t n))) ` {..<4}
         = {(Some 0, Some 1, 1), (Some 0, Some 2, 1), (Some 1, Some 3, 1), (Some 2, Some 3, 1)}"
    unfolding t grid_2x2_value less_four by (simp add: grid_spring_def)
  also have "\<dots> = {(Some 0, Some 1, 1), (Some 2, Some 3, 1), (Some 0, Some 2, 1),
                   (Some 1, Some 3, 1)}"
    by (simp add: insert_commute)
  finally show ?thesis using counts places pins by simp
qed

text \<open>
  Claim C3, as amended. \<open>system_init_grid\<close> starts from empty collections whatever
  the system held before. When rows * cols does not exceed the capacity of the mass
  collection, it creates rows * cols masses; the mass of row r and column c has the
  index r * cols + c, the position origin + (c, r) * cell_size, zero velocity, no
  forces and the given mass, and it is fixed exactly when r = 0. For 2 rows, 2 columns,
  the origin (0, 0) and the cell size 1 there are exactly 4 masses, at (0, 0), (1, 0),
  (0, 1), (1, 1), the first two fixed and the other two free, and exactly the 4 springs
  0-1, 2-3, 0-2, 1-3, each of rest length 1, and nothing is printed.
\<close>

theorem system_init_grid_layout:
  "(rows * cols \<le> SYSTEM_CAPACITY \<longrightarrow>
      mass_count (fst (system_init_grid s rows cols origin cell_size mass_arg k d)) = rows * cols
      \<and> (r < rows \<and> c < cols \<longrightarrow>
           masses (fst (system_init_grid s rows cols origin cell_size mass_arg k d)) (r * cols + c)
             = \<lparr>position = Vector2Add origin (Vector2Scale \<lparr>x = real c, y = real r\<rparr> cell_size),
                velocity = Vector2Zero, acceleration = Vector2Zero,
                forces = (\<lambda>_. Vector2Zero), force_count = 0,
                mass_value = mass_arg, fixed = (r = 0)\<rparr>))
   \<and> (let t = fst (system_init_grid s 2 2 \<lparr>x = 0, y = 0\<rparr> 1 mass_arg k d)
      in mass_count t = 4 \<and> spring_count t = 4
         \<and> snd (system_init_grid s 2 2 \<lparr>x = 0, y = 0\<rparr> 1 mass_arg k d) = []
         \<and> position (masses t 0) = \<lparr>x = 0, y = 0\<rparr> \<and> position (masses t 1) = \<lparr>x = 1, y = 0\<rparr>
         \<and> position (masses t 2) = \<lparr>x = 0, y = 1\<rparr> \<and> position (masses t 3) = \<lparr>x = 1, y = 1\<rparr>
         \<and> fixed (masses t 0) \<and> fixed (masses t 1)
         \<and> \<not> fixed (masses t 2) \<and> \<not> fixed (masses t 3)
         \<and> (\<lambda>n. (first (springs t n), second (springs t n), length_s (springs t n))) ` {..<4}
             = {(Some 0, Some 1, 1), (Some 2, Some 3, 1), (Some 0, Some 2, 1),
                (Some 1, Some 3, 1)})"
proof -
  have general: "masses (fst (system_init_grid s rows cols origin cell_size mass_arg k d))
                   (r * cols + c)
             = \<lparr>position = Vector2Add origin (Vector2Scale \<lparr>x = real c, y = real r\<rparr> cell_size),
                velocity = Vector2Zero, acceleration = Vector2Zero,
                forces = (\<lambda>_. Vector2Zero), force_count = 0,
                mass_value = mass_arg, fixed = (r = 0)\<rparr>"
    if cap: "rows * cols \<le> SYSTEM_CAPACITY" and r: "r < rows" and c: "c < cols"
  proof -
    have "r * cols + c < rows * cols"
      using r c order_refl by (rule grid_index_bound)
    moreover have "(r * cols + c) div cols = r" "(r * cols + c) mod cols = c"
      using c by simp_all
    ultimately show ?thesis
      using system_init_grid_masses(2) [OF cap, of "r * cols + c" s origin cell_size mass_arg k d]
      by (simp add: grid_mass_def zero_mass_def)
  qed
  have small: "system_init_grid s 2 2 \<lparr>x = 0, y = 0\<rparr> 1 mass_arg k d
                 = (fst (system_init_grid s 2 2 \<lparr>x = 0, y = 0\<rparr> 1 mass_arg k d),
                    snd (system_init_grid s 2 2 \<lparr>x = 0, y = 0\<rparr> 1 mass_arg k d))"
    by simp
  show ?thesis
    unfolding Let_def
    using general system_init_grid_masses(1) [of rows cols s origin cell_size mass_arg k d]
      grid_2x2 [OF small]
    by blast
qed

theorem system_init_grid_layout_witness:
  "2 * 3 \<le> SYSTEM_CAPACITY \<and> (1::nat) < 2 \<and> (1::nat) < 3
   \<and> mass_count (fst (system_init_grid sprung_system 2 3 \<lparr>x = 1, y = 1\<rparr> 2 5 7 9)) = 6
   \<and> position (masses (fst (system_init_grid sprung_system 2 3 \<lparr>x = 1, y = 1\<rparr> 2 5 7 9)) 4)
       = \<lparr>x = 3, y = 3\<rparr>
   \<and> mass_value (masses (fst (system_init_grid sprung_system 2 3 \<lparr>x = 1, y = 1\<rparr> 2 5 7 9)) 4) = 5
   \<and> \<not> fixed (masses (fst (system_init_grid sprung_system 2 3 \<lparr>x = 1, y = 1\<rparr> 2 5 7 9)) 4)"
  using system_init_grid_layout [where rows = 2 and cols = 3 and r = 1 and c = 1
      and s = sprung_system and origin = "\<lparr>x = 1, y = 1\<rparr>" and cell_size = 2
      and mass_arg = 5 and k = 7 and d = 9]
  by (simp add: SYSTEM_CAPACITY_def vector_defs)

text \<open>
  Claim C3 as stated fails: for 8097 rows of one column the last mass is rejected by
  \<open>system_add_mass\<close>, so fewer than rows * cols masses are created.
\<close>

theorem system_init_grid_counterexample:
  "mass_count (fst (system_init_grid empty_system 8097 1 \<lparr>x = 0, y = 0\<rparr> 1 1 1 1)) \<noteq> 8097 * 1"
  using system_init_grid_bounded [of empty_system 8097 1 "\<lparr>x = 0, y = 0\<rparr>" 1 1 1 1]
  by (simp add: SYSTEM_CAPACITY_def)

subsection \<open>Endpoints at the same place\<close>

text \<open>The guard of \<open>Vector2Normalize\<close> keeps the division away from a zero length: the
  checked function always has a result, the one of the function used by the model.\<close>

lemma Vector2Normalize_checked_defined:
  "Vector2Normalize_checked v = Some (Vector2Normalize v)"
  by (simp add: Vector2Normalize_checked_def Vector2Normalize_def checked_divide_def Let_def)






end
